theory Spec2Isabelle
  imports Main
begin

section \<open>Strings as Python sees them\<close>

text \<open>
  The plugin works on \<^verbatim>\<open>str\<close> values obtained by decoding the output of remote commands.
  A string is modelled as a list of characters, a character being a code point below 256
  (the Latin-1 range); \<open>of_char\<close> reads the code point. The classifications below are
  those of CPython for that range.
\<close>

definition code :: "char \<Rightarrow> nat" where
  "code c = of_char c"

text \<open>\<^verbatim>\<open>str.isspace\<close>, the separator set of \<^verbatim>\<open>str.split()\<close> without argument.\<close>

definition is_space :: "char \<Rightarrow> bool" where
  "is_space c \<longleftrightarrow> (9 \<le> code c \<and> code c \<le> 13) \<or> (28 \<le> code c \<and> code c \<le> 32)
     \<or> code c = 133 \<or> code c = 160"

text \<open>The line boundaries of \<^verbatim>\<open>str.splitlines\<close>.\<close>

definition is_linebreak :: "char \<Rightarrow> bool" where
  "is_linebreak c \<longleftrightarrow> (10 \<le> code c \<and> code c \<le> 13) \<or> (28 \<le> code c \<and> code c \<le> 30)
     \<or> code c = 133"

text \<open>\<^verbatim>\<open>str.isalnum\<close>.\<close>

definition is_alnum :: "char \<Rightarrow> bool" where
  "is_alnum c \<longleftrightarrow> (48 \<le> code c \<and> code c \<le> 57) \<or> (65 \<le> code c \<and> code c \<le> 90)
     \<or> (97 \<le> code c \<and> code c \<le> 122) \<or> code c = 170 \<or> code c = 178 \<or> code c = 179
     \<or> code c = 181 \<or> code c = 185 \<or> code c = 186 \<or> (188 \<le> code c \<and> code c \<le> 190)
     \<or> (192 \<le> code c \<and> code c \<le> 214) \<or> (216 \<le> code c \<and> code c \<le> 246)
     \<or> 248 \<le> code c"

text \<open>The class \<^verbatim>\<open>\w\<close> of the \<^verbatim>\<open>re\<close> module on \<^verbatim>\<open>str\<close>: alphanumeric or underscore.\<close>

definition is_word :: "char \<Rightarrow> bool" where
  "is_word c \<longleftrightarrow> is_alnum c \<or> c = CHR ''_''"

text \<open>The characters that \<^verbatim>\<open>str.lower\<close> changes: A-Z and the upper-case Latin-1 letters.\<close>

definition is_upper :: "char \<Rightarrow> bool" where
  "is_upper c \<longleftrightarrow> (65 \<le> code c \<and> code c \<le> 90)
     \<or> (192 \<le> code c \<and> code c \<le> 222 \<and> code c \<noteq> 215)"

definition lower_char :: "char \<Rightarrow> char" where
  "lower_char c = (if is_upper c then char_of (code c + 32) else c)"

definition lower :: "string \<Rightarrow> string" where
  "lower s = map lower_char s"

text \<open>\<^verbatim>\<open>s.replace(a, b)\<close> for one-character \<open>a\<close> and \<open>b\<close>.\<close>

definition replace :: "char \<Rightarrow> char \<Rightarrow> string \<Rightarrow> string" where
  "replace a b s = map (\<lambda>c. if c = a then b else c) s"

section \<open>Name normalisation (\<^verbatim>\<open>parse\<close>, lines 139-141)\<close>

text \<open>\<^verbatim>\<open>re.sub(r"\W", "", vm)\<close>: every character outside \<^verbatim>\<open>\w\<close> is a match and is deleted.\<close>

definition sub_nonword :: "string \<Rightarrow> string" where
  "sub_nonword s = filter is_word s"

text \<open>
  \<^verbatim>\<open>re.sub(r"_+", "_", vm)\<close>: scanning from the left, a match starts at each underscore,
  the greedy \<^verbatim>\<open>+\<close> takes the whole run, and the run is replaced by one underscore.
\<close>

function sub_underscores :: "string \<Rightarrow> string" where
  "sub_underscores [] = []"
| "sub_underscores (c # cs) =
     (if c = CHR ''_'' then CHR ''_'' # sub_underscores (dropWhile (\<lambda>d. d = CHR ''_'') cs)
      else c # sub_underscores cs)"
  by pat_completeness auto
termination
  by (relation "measure length") (auto simp: length_dropWhile_le less_Suc_eq_le)

text \<open>
  \<^verbatim>\<open>
  vm = vm.replace(" ", "_").replace("-", "_").lower()
  vm = re.sub(r"\W", "", vm)
  vm = re.sub(r"_+", "_", vm)
  \<close>
\<close>

definition normalize :: "string \<Rightarrow> string" where
  "normalize vm =
     sub_underscores (sub_nonword (lower (replace CHR ''-'' CHR ''_'' (replace CHR '' '' CHR ''_'' vm))))"

subsection \<open>The four-step reference transform of the specification\<close>

text \<open>Step 1: replace every space and hyphen with underscore.\<close>

definition ref_replace :: "string \<Rightarrow> string" where
  "ref_replace s = map (\<lambda>c. if c = CHR '' '' \<or> c = CHR ''-'' then CHR ''_'' else c) s"

text \<open>Step 3: remove every character that is not alphanumeric or underscore.\<close>

definition ref_remove :: "string \<Rightarrow> string" where
  "ref_remove s = filter (\<lambda>c. is_alnum c \<or> c = CHR ''_'') s"

text \<open>Step 4: collapse runs of two or more consecutive underscores into one.\<close>

fun ref_collapse :: "string \<Rightarrow> string" where
  "ref_collapse (a # b # cs) =
     (if a = CHR ''_'' \<and> b = CHR ''_'' then ref_collapse (b # cs) else a # ref_collapse (b # cs))"
| "ref_collapse cs = cs"

definition normalize_reference :: "string \<Rightarrow> string" where
  "normalize_reference s = ref_collapse (ref_remove (lower (ref_replace s)))"

section \<open>Splitting text\<close>

text \<open>
  \<^verbatim>\<open>str.splitlines()\<close>: the text is cut at every line boundary, \<^verbatim>\<open>\r\n\<close> counting as one;
  the boundaries are dropped and a final boundary opens no further line. The first
  argument holds the current line, reversed.
\<close>

fun splitlines_from :: "string \<Rightarrow> string \<Rightarrow> string list" where
  "splitlines_from cur [] = (if cur = [] then [] else [rev cur])"
| "splitlines_from cur (c # cs) =
     (if is_linebreak c then
        (case cs of
           d # ds \<Rightarrow> if code c = 13 \<and> code d = 10 then rev cur # splitlines_from [] ds
                     else rev cur # splitlines_from [] cs
         | [] \<Rightarrow> rev cur # splitlines_from [] cs)
      else splitlines_from (c # cur) cs)"

definition splitlines :: "string \<Rightarrow> string list" where
  "splitlines s = splitlines_from [] s"

text \<open>
  \<^verbatim>\<open>str.split()\<close> without argument: the maximal runs of non-whitespace characters, in
  order; no empty token is produced. The first argument holds the current token, reversed.
\<close>

fun split_from :: "string \<Rightarrow> string \<Rightarrow> string list" where
  "split_from cur [] = (if cur = [] then [] else [rev cur])"
| "split_from cur (c # cs) =
     (if is_space c then (if cur = [] then split_from [] cs else rev cur # split_from [] cs)
      else split_from (c # cur) cs)"

definition split :: "string \<Rightarrow> string list" where
  "split s = split_from [] s"

text \<open>\<^verbatim>\<open>s.split("/")[0]\<close>: the text before the first slash, all of it when there is none.\<close>

definition before_slash :: "string \<Rightarrow> string" where
  "before_slash s = takeWhile (\<lambda>c. c \<noteq> CHR ''/'') s"

text \<open>\<^verbatim>\<open>sub in s\<close>: \<open>sub\<close> occurs in \<open>s\<close> as a contiguous substring.\<close>

fun startswith :: "string \<Rightarrow> string \<Rightarrow> bool" where
  "startswith [] s = True"
| "startswith (p # ps) [] = False"
| "startswith (p # ps) (c # cs) = (p = c \<and> startswith ps cs)"

fun contains :: "string \<Rightarrow> string \<Rightarrow> bool" where
  "contains sub [] = (sub = [])"
| "contains sub (c # cs) = (startswith sub (c # cs) \<or> contains sub cs)"

section \<open>Patterns\<close>

text \<open>
  A pattern is taken in compiled form, as a syntax tree over the constructs the plugin's
  defaults use (\<^verbatim>\<open>.\<close>, \<^verbatim>\<open>\w\<close>, literals, concatenation, \<^verbatim>\<open>*\<close>, \<^verbatim>\<open>+\<close>) and alternation;
  \<open>Never\<close> matches nothing. Every tree is a valid pattern.
\<close>

datatype rexp =
    Never
  | Eps
  | Lit char
  | Dot
  | Word
  | Seq rexp rexp
  | Alt rexp rexp
  | Star rexp
  | Plus rexp

text \<open>Whether the pattern matches the empty string.\<close>

fun nullable :: "rexp \<Rightarrow> bool" where
  "nullable Never = False"
| "nullable Eps = True"
| "nullable (Lit a) = False"
| "nullable Dot = False"
| "nullable Word = False"
| "nullable (Seq r s) = (nullable r \<and> nullable s)"
| "nullable (Alt r s) = (nullable r \<or> nullable s)"
| "nullable (Star r) = True"
| "nullable (Plus r) = nullable r"

text \<open>What remains to be matched once the character \<open>c\<close> has been read.\<close>

fun after :: "char \<Rightarrow> rexp \<Rightarrow> rexp" where
  "after c Never = Never"
| "after c Eps = Never"
| "after c (Lit a) = (if c = a then Eps else Never)"
| "after c Dot = (if code c = 10 then Never else Eps)"
| "after c Word = (if is_word c then Eps else Never)"
| "after c (Seq r s) =
     (if nullable r then Alt (Seq (after c r) s) (after c s) else Seq (after c r) s)"
| "after c (Alt r s) = Alt (after c r) (after c s)"
| "after c (Star r) = Seq (after c r) (Star r)"
| "after c (Plus r) = Seq (after c r) (Star r)"

text \<open>
  \<^verbatim>\<open>re.match(pattern, s)\<close> read as a truth value: the pattern matches some prefix of \<open>s\<close>,
  starting at its first character.
\<close>

fun re_match :: "rexp \<Rightarrow> string \<Rightarrow> bool" where
  "re_match r [] = nullable r"
| "re_match r (c # cs) = (nullable r \<or> re_match (after c r) cs)"

text \<open>The default patterns: \<^verbatim>\<open>.*\<close> for VM names and \<^verbatim>\<open>en\w+\<close> for interfaces.\<close>

definition default_name_pattern :: rexp where
  "default_name_pattern = Star Dot"

definition default_interface_pattern :: rexp where
  "default_interface_pattern = Seq (Lit CHR ''e'') (Seq (Lit CHR ''n'') (Plus Word))"

text \<open>The set of strings a pattern matches in full.\<close>

inductive_set star :: "string set \<Rightarrow> string set" for A :: "string set" where
  star_empty: "[] \<in> star A"
| star_more: "u \<in> A \<Longrightarrow> v \<in> star A \<Longrightarrow> u @ v \<in> star A"

fun lang :: "rexp \<Rightarrow> string set" where
  "lang Never = {}"
| "lang Eps = {[]}"
| "lang (Lit a) = {[a]}"
| "lang Dot = {[c] | c. code c \<noteq> 10}"
| "lang Word = {[c] | c. is_word c}"
| "lang (Seq r s) = {u @ v | u v. u \<in> lang r \<and> v \<in> lang s}"
| "lang (Alt r s) = lang r \<union> lang s"
| "lang (Star r) = star (lang r)"
| "lang (Plus r) = {u @ v | u v. u \<in> lang r \<and> v \<in> star (lang r)}"

section \<open>Address selection (\<^verbatim>\<open>_parse_virsh_domifaddr\<close>)\<close>

datatype error =
    IndexError
  | ParamikoMissing
  | MissingParameters
  | ConnectError
  | ListingError
  | AddressQueryError string

text \<open>
  \<^verbatim>\<open>
  for line in lines:
      splitted_line = line.split()
      if "ipv4" in line and re.match(interface_pattern, splitted_line[0]):
          return splitted_line[-1].split("/")[0]
  return None
  \<close>
  \<^verbatim>\<open>and\<close> evaluates its right operand only when the left one holds. Indexing an empty
  token list raises \<open>IndexError\<close>.
\<close>

fun parse_virsh_domifaddr :: "string list \<Rightarrow> rexp \<Rightarrow> error + string option" where
  "parse_virsh_domifaddr [] interface_pattern = Inr None"
| "parse_virsh_domifaddr (line # lines) interface_pattern =
     (let splitted_line = split line in
      if contains ''ipv4'' line then
        (case splitted_line of
           [] \<Rightarrow> Inl IndexError
         | first # _ \<Rightarrow>
             if re_match interface_pattern first
             then Inr (Some (before_slash (last splitted_line)))
             else parse_virsh_domifaddr lines interface_pattern)
      else parse_virsh_domifaddr lines interface_pattern)"

subsection \<open>The selection rule in the words of the specification\<close>

text \<open>
  The columns are interface name, MAC, protocol and address. The first line whose protocol
  field equals \<^verbatim>\<open>ipv4\<close> and whose interface-name field matches the pattern gives the
  answer: its address field without the \<^verbatim>\<open>/prefix-length\<close> suffix.
\<close>

fun resolve_address_reference :: "string list \<Rightarrow> rexp \<Rightarrow> string option" where
  "resolve_address_reference [] interface_pattern = None"
| "resolve_address_reference (line # lines) interface_pattern =
     (case split line of
        name # mac # protocol # address # _ \<Rightarrow>
          if protocol = ''ipv4'' \<and> re_match interface_pattern name
          then Some (before_slash address)
          else resolve_address_reference lines interface_pattern
      | _ \<Rightarrow> resolve_address_reference lines interface_pattern)"

text \<open>A report line in the four-column layout.\<close>

definition four_columns :: "string \<Rightarrow> bool" where
  "four_columns line \<longleftrightarrow>
     (case split line of [name, mac, protocol, address] \<Rightarrow> protocol = ''ipv4'' | _ \<Rightarrow> False)"

section \<open>The run (\<^verbatim>\<open>parse\<close>)\<close>

text \<open>
  The options read from the inventory file. \<open>None\<close> stands for an option that is absent;
  for a pattern it also stands for the empty pattern text, which \<^verbatim>\<open>or\<close> replaces by the
  default just the same.
\<close>

record config =
  unraid_host :: "string option"
  unraid_user :: "string option"
  unraid_password :: "string option"
  vm_name_pattern :: "rexp option"
  vm_interface_pattern :: "rexp option"
  ansible_user :: "string option"

text \<open>Python's truth value of an optional string: \<^verbatim>\<open>None\<close> and \<^verbatim>\<open>""\<close> are false.\<close>

fun truthy :: "string option \<Rightarrow> bool" where
  "truthy None = False"
| "truthy (Some s) = (s \<noteq> [])"

text \<open>
  What one remote command does: \<^verbatim>\<open>exec_command\<close> raises, or it returns and reading and
  decoding its output raises, or the output text is obtained.
\<close>

datatype exec_result = ExecRaises | ReadRaises | Stdout string

text \<open>
  The world outside the plugin: whether \<^verbatim>\<open>paramiko\<close> can be imported, whether
  \<^verbatim>\<open>client.connect\<close> succeeds, and what the two commands do (the address query depends
  on the VM name, which is part of its command line).
\<close>

record remote =
  paramiko_installed :: bool
  connect_ok :: bool
  virsh_list :: exec_result
  virsh_domifaddr :: "string \<Rightarrow> exec_result"

text \<open>The calls made on the inventory object, in order.\<close>

datatype inv_call =
    AddGroup string
  | AddHost string string
  | SetVariable string string string

record state =
  session_open :: bool
  inventory :: "inv_call list"

datatype outcome = Returned | Raised error

text \<open>
  \<^verbatim>\<open>vms_ips[vm] = ip\<close> on a \<^verbatim>\<open>dict\<close>, which keeps insertion order: an existing key keeps
  its place and takes the new value, a new key goes to the end.
\<close>

fun dict_set :: "(string \<times> string) list \<Rightarrow> string \<Rightarrow> string \<Rightarrow> (string \<times> string) list" where
  "dict_set [] k v = [(k, v)]"
| "dict_set ((k', v') # rest) k v =
     (if k' = k then (k, v) # rest else (k', v') # dict_set rest k v)"

text \<open>
  Lines 98-106: the VM names are the lines of the listing that the name pattern matches.
  \<^verbatim>\<open>
  vms = stdout.read().decode().splitlines()
  vms = [vm for vm in vms if re.match(name_pattern, vm)]
  \<close>
\<close>

definition list_vms :: "rexp \<Rightarrow> string \<Rightarrow> string list" where
  "list_vms name_pattern out = filter (re_match name_pattern) (splitlines out)"

text \<open>
  Lines 116-132, the loop over the VMs. A raising \<^verbatim>\<open>exec_command\<close> is turned into an
  \<^verbatim>\<open>AnsibleError\<close>; any exception of the second \<^verbatim>\<open>try\<close> block is printed and the loop goes
  on; an address is stored only when it is a non-empty string (\<^verbatim>\<open>if ip:\<close>).
\<close>

fun collect_ips ::
  "remote \<Rightarrow> rexp \<Rightarrow> string list \<Rightarrow> (string \<times> string) list \<Rightarrow> error + (string \<times> string) list"
where
  "collect_ips rem interface_pattern [] vms_ips = Inr vms_ips"
| "collect_ips rem interface_pattern (vm # vms) vms_ips =
     (case virsh_domifaddr rem vm of
        ExecRaises \<Rightarrow> Inl (AddressQueryError vm)
      | ReadRaises \<Rightarrow> collect_ips rem interface_pattern vms vms_ips
      | Stdout out \<Rightarrow>
          (case parse_virsh_domifaddr (splitlines out) interface_pattern of
             Inl e \<Rightarrow> collect_ips rem interface_pattern vms vms_ips
           | Inr None \<Rightarrow> collect_ips rem interface_pattern vms vms_ips
           | Inr (Some ip) \<Rightarrow>
               if ip \<noteq> [] then collect_ips rem interface_pattern vms (dict_set vms_ips vm ip)
               else collect_ips rem interface_pattern vms vms_ips))"

text \<open>Lines 138-146, the loop over the collected addresses.\<close>

fun add_hosts :: "string option \<Rightarrow> (string \<times> string) list \<Rightarrow> inv_call list" where
  "add_hosts user [] = []"
| "add_hosts user ((vm, ip) # rest) =
     (let name = normalize vm in
      [AddHost name ''unraid'', SetVariable name ''ansible_host'' ip]
      @ (if truthy user then [SetVariable name ''ansible_user'' (the user)] else [])
      @ add_hosts user rest)"

text \<open>
  Lines 80-81, the patterns a run uses.
  \<^verbatim>\<open>
  name_pattern = config.get("vm_name_pattern") or ".*"
  vm_interface_pattern = config.get("vm_interface_pattern") or "en\w+"
  \<close>
\<close>

definition name_pattern_of :: "config \<Rightarrow> rexp" where
  "name_pattern_of cfg = (case vm_name_pattern cfg of None \<Rightarrow> default_name_pattern | Some r \<Rightarrow> r)"

definition interface_pattern_of :: "config \<Rightarrow> rexp" where
  "interface_pattern_of cfg =
     (case vm_interface_pattern cfg of None \<Rightarrow> default_interface_pattern | Some r \<Rightarrow> r)"

text \<open>
  The whole of \<^verbatim>\<open>parse\<close>, from the import of \<^verbatim>\<open>paramiko\<close> to \<^verbatim>\<open>client.close()\<close>. The
  session is open from the moment \<^verbatim>\<open>client.connect\<close> has succeeded. The result is how the
  call ends together with the state it leaves.
\<close>

definition parse :: "config \<Rightarrow> remote \<Rightarrow> state \<Rightarrow> outcome \<times> state" where
  "parse cfg rem st =
     (if \<not> paramiko_installed rem then (Raised ParamikoMissing, st)
      else
        let name_pattern = name_pattern_of cfg;
            interface_pattern = interface_pattern_of cfg
        in
        if \<not> (truthy (unraid_host cfg) \<and> truthy (unraid_user cfg) \<and> truthy (unraid_password cfg))
        then (Raised MissingParameters, st)
        else if \<not> connect_ok rem then (Raised ConnectError, st)
        else
          let st1 = st\<lparr>session_open := True\<rparr> in
          (case virsh_list rem of
             ExecRaises \<Rightarrow> (Raised ListingError, st1)
           | ReadRaises \<Rightarrow> (Raised ListingError, st1)
           | Stdout out \<Rightarrow>
               let vms = list_vms name_pattern out in
               if vms = [] then (Returned, st1)
               else
                 (case collect_ips rem interface_pattern vms [] of
                    Inl e \<Rightarrow> (Raised e, st1)
                  | Inr vms_ips \<Rightarrow>
                      (Returned,
                       st1\<lparr>inventory :=
                              inventory st1
                              @ (if vms_ips \<noteq> [] then [AddGroup ''unraid''] else [])
                              @ add_hosts (ansible_user cfg) vms_ips,
                            session_open := False\<rparr>))))"

text \<open>The state before a run: no session, nothing added to the inventory.\<close>

definition initial :: state where
  "initial = \<lparr>session_open = False, inventory = []\<rparr>"

text \<open>The conditions under which a run gets as far as the first remote command.\<close>

definition reaches_host :: "config \<Rightarrow> remote \<Rightarrow> bool" where
  "reaches_host cfg rem \<longleftrightarrow>
     paramiko_installed rem \<and> truthy (unraid_host cfg) \<and> truthy (unraid_user cfg)
     \<and> truthy (unraid_password cfg) \<and> connect_ok rem"

text \<open>Sample data: the table of the docstring, a configuration and some hosts.\<close>

definition sample_table :: "string list" where
  "sample_table =
     ['' Name       MAC address          Protocol     Address'',
      ''-------------------------------------------------------------------------------'',
      '' lo         00:00:00:00:00:00    ipv4         127.0.0.1/8'',
      '' -          -                    ipv6         ::1/128'',
      '' enp1s0     52:54:00:00:f0:f9    ipv4         192.168.1.86/24'',
      '' -          -                    ipv6         fe80::5054:ff:fef0:f9df/64'']"

definition sample_config :: config where
  "sample_config =
     \<lparr>unraid_host = Some ''tower'', unraid_user = Some ''root'', unraid_password = Some ''secret'',
      vm_name_pattern = None, vm_interface_pattern = None, ansible_user = None\<rparr>"

definition sample_report :: string where
  "sample_report = '' enp1s0     52:54:00:00:f0:f9    ipv4         192.168.1.86/24''"

definition host_without_vms :: remote where
  "host_without_vms =
     \<lparr>paramiko_installed = True, connect_ok = True, virsh_list = Stdout [],
      virsh_domifaddr = (\<lambda>vm. Stdout [])\<rparr>"

definition host_failing_list :: remote where
  "host_failing_list =
     \<lparr>paramiko_installed = True, connect_ok = True, virsh_list = ExecRaises,
      virsh_domifaddr = (\<lambda>vm. Stdout [])\<rparr>"

definition host_failing_query :: remote where
  "host_failing_query =
     \<lparr>paramiko_installed = True, connect_ok = True, virsh_list = Stdout ''web'',
      virsh_domifaddr = (\<lambda>vm. ExecRaises)\<rparr>"

definition host_unparsable :: remote where
  "host_unparsable =
     \<lparr>paramiko_installed = True, connect_ok = True, virsh_list = Stdout ''web'',
      virsh_domifaddr = (\<lambda>vm. Stdout ''error: Guest agent is not responding'')\<rparr>"

text \<open>
  A report whose only address line is an \<^verbatim>\<open>ipv6\<close> line of an interface named \<^verbatim>\<open>enipv4\<close>,
  and a host with one VM that answers the address query with it.
\<close>

definition ipv6_only_line :: string where
  "ipv6_only_line = '' enipv4     52:54:00:00:f0:f9    ipv6         fe80::5054:ff:fef0:f9df/64''"

definition ipv6_only_report :: "string list" where
  "ipv6_only_report = [ipv6_only_line]"

definition host_ipv6_only :: remote where
  "host_ipv6_only =
     \<lparr>paramiko_installed = True, connect_ok = True, virsh_list = Stdout ''web'',
      virsh_domifaddr = (\<lambda>vm. Stdout ipv6_only_line)\<rparr>"

text \<open>A listing of two VMs that ends, as the listings of \<^verbatim>\<open>virsh\<close> do, with a blank line.\<close>

definition listing_with_blank_line :: string where
  "listing_with_blank_line = ''web'' @ [CHR 0x0A] @ ''db'' @ [CHR 0x0A, CHR 0x0A]"

text \<open>The characters of a raw name that leave a trace in its identifier.\<close>

definition survives :: "char \<Rightarrow> bool" where
  "survives c \<longleftrightarrow> is_alnum c \<or> c = CHR ''_'' \<or> c = CHR '' '' \<or> c = CHR ''-''"

section \<open>Characters\<close>

lemma code_lt: "code c < 256"
  by (simp add: code_def)

lemma code_char_of: "n < 256 \<Longrightarrow> code (char_of n) = n"
  by (simp add: code_def)

lemma code_inj: "code c = code d \<Longrightarrow> c = d"
  by (simp add: code_def)

lemma code_lower_char: "code (lower_char c) = (if is_upper c then code c + 32 else code c)"
  by (auto simp: lower_char_def is_upper_def code_char_of)

lemma lower_char_idem: "lower_char (lower_char c) = lower_char c"
  by (rule code_inj) (auto simp: code_lower_char is_upper_def)

lemma code_underscore: "code CHR ''_'' = 95"
  by (simp add: code_def)

lemma code_space: "code CHR '' '' = 32"
  by (simp add: code_def)

lemma code_hyphen: "code CHR ''-'' = 45"
  by (simp add: code_def)

lemma eq_underscore: "c = CHR ''_'' \<longleftrightarrow> code c = 95"
  using code_inj[of c "CHR ''_''"] by (auto simp: code_underscore)

lemma is_word_lower_char: "is_word (lower_char c) = is_word c"
  using code_lt[of c]
  by (auto simp: is_word_def is_alnum_def eq_underscore code_lower_char is_upper_def)

lemma is_word_underscore: "is_word CHR ''_''"
  by (simp add: is_word_def)

lemma word_not_sep: "is_word c \<Longrightarrow> c \<noteq> CHR '' '' \<and> c \<noteq> CHR ''-''"
  by (auto simp: is_word_def is_alnum_def code_space code_hyphen)

section \<open>Properties of the normalisation\<close>

lemma sub_collapse: "sub_underscores s = ref_collapse s"
proof (induction s rule: ref_collapse.induct)
  case (1 a b cs)
  then show ?case by (cases "b = CHR ''_''") auto
qed auto

lemma set_sub_underscores: "set (sub_underscores s) \<subseteq> set s"
proof (induction s rule: sub_underscores.induct)
  case (2 c cs)
  then show ?case using set_dropWhileD[of _ "\<lambda>d. d = CHR ''_''" cs] by auto
qed simp

lemma sub_underscores_Nil: "sub_underscores s = [] \<longleftrightarrow> s = []"
  by (cases s) auto

lemma dropWhile_sub_underscores:
  "dropWhile (\<lambda>d. d = CHR ''_'') (sub_underscores s)
   = sub_underscores (dropWhile (\<lambda>d. d = CHR ''_'') s)"
  by (induction s rule: sub_underscores.induct) auto

lemma sub_underscores_idem: "sub_underscores (sub_underscores s) = sub_underscores s"
proof (induction s rule: sub_underscores.induct)
  case (2 c cs)
  then show ?case by (auto simp: dropWhile_sub_underscores)
qed simp

lemma replace_id: "a \<notin> set s \<Longrightarrow> replace a b s = s"
  by (induction s) (auto simp: replace_def)

lemma normalize_chars:
  assumes "c \<in> set (normalize x)"
  shows "is_word c \<and> lower_char c = c"
proof -
  from assms set_sub_underscores
  have "c \<in> set (sub_nonword (lower (replace CHR ''-'' CHR ''_'' (replace CHR '' '' CHR ''_'' x))))"
    unfolding normalize_def by blast
  then show ?thesis
    by (auto simp: sub_nonword_def lower_def lower_char_idem)
qed

lemma ref_steps:
  "replace CHR ''-'' CHR ''_'' (replace CHR '' '' CHR ''_'' s) = ref_replace s"
  by (simp add: replace_def ref_replace_def)

lemma ref_remove_eq: "sub_nonword s = ref_remove s"
proof -
  have "filter is_word s = filter (\<lambda>c. is_alnum c \<or> c = CHR ''_'') s"
    by (rule filter_cong) (simp_all add: is_word_def)
  then show ?thesis
    by (simp add: sub_nonword_def ref_remove_def)
qed

lemma survives_alt: "survives c \<longleftrightarrow> is_word c \<or> c = CHR '' '' \<or> c = CHR ''-''"
  by (auto simp: survives_def is_word_def)

lemma survives_step:
  "is_word (lower_char (if c = CHR '' '' \<or> c = CHR ''-'' then CHR ''_'' else c)) \<longleftrightarrow> survives c"
proof (cases "c = CHR '' '' \<or> c = CHR ''-''")
  case True
  then show ?thesis using is_word_underscore by (auto simp: is_word_lower_char survives_alt)
next
  case False
  then show ?thesis by (simp add: is_word_lower_char survives_alt)
qed

text \<open>
  C7. The normalisation of the code is the four-step reference transform of the
  specification (replace space and hyphen by underscore, lowercase, remove what is neither
  alphanumeric nor underscore, collapse runs of underscores), and it maps \<^verbatim>\<open>My VM-1\<close> to
  \<^verbatim>\<open>my_vm_1\<close>, \<^verbatim>\<open>web--app\<close> to \<^verbatim>\<open>web_app\<close> and \<^verbatim>\<open>a!!b\<close> to \<^verbatim>\<open>ab\<close>.
\<close>

theorem normalize_refines_reference:
  "normalize s = normalize_reference s
   \<and> normalize ''My VM-1'' = ''my_vm_1''
   \<and> normalize ''web--app'' = ''web_app''
   \<and> normalize ''a!!b'' = ''ab''"
proof -
  have "normalize s = normalize_reference s"
    by (simp add: normalize_def normalize_reference_def ref_steps ref_remove_eq sub_collapse)
  moreover have "normalize ''My VM-1'' = ''my_vm_1''" by code_simp
  moreover have "normalize ''web--app'' = ''web_app''" by code_simp
  moreover have "normalize ''a!!b'' = ''ab''" by code_simp
  ultimately show ?thesis by simp
qed

text \<open>
  C9. Normalising an identifier that is already normalised changes nothing:
  \<open>normalize (normalize x) = normalize x\<close> for every string \<open>x\<close>.
\<close>

theorem normalize_idempotent: "normalize (normalize x) = normalize x"
proof -
  let ?y = "normalize x"
  have w: "\<forall>c \<in> set ?y. is_word c" and l: "\<forall>c \<in> set ?y. lower_char c = c"
    using normalize_chars by blast+
  have r1: "replace CHR '' '' CHR ''_'' ?y = ?y"
    using w word_not_sep by (intro replace_id) blast
  have r2: "replace CHR ''-'' CHR ''_'' ?y = ?y"
    using w word_not_sep by (intro replace_id) blast
  have lo: "lower ?y = ?y"
    using l by (simp add: lower_def map_idI)
  have f: "sub_nonword ?y = ?y"
    using w by (simp add: sub_nonword_def)
  have "normalize ?y = sub_underscores ?y"
    by (subst normalize_def) (simp only: r1 r2 lo f)
  also have "\<dots> = ?y"
    by (simp add: normalize_def sub_underscores_idem)
  finally show ?thesis .
qed

text \<open>
  C3, as the code has it. The normalisation is a total function, and the identifier is
  non-empty exactly when the raw name holds at least one alphanumeric character,
  underscore, space or hyphen; every other raw name is mapped to the empty string.
\<close>

theorem normalize_nonempty_iff: "normalize x \<noteq> [] \<longleftrightarrow> (\<exists>c \<in> set x. survives c)"
proof -
  have "normalize x \<noteq> [] \<longleftrightarrow> filter is_word (map lower_char (ref_replace x)) \<noteq> []"
    by (simp add: normalize_def sub_underscores_Nil sub_nonword_def lower_def ref_steps)
  also have "\<dots> \<longleftrightarrow>
      (\<exists>c \<in> set x. is_word (lower_char (if c = CHR '' '' \<or> c = CHR ''-'' then CHR ''_'' else c)))"
    by (simp only: filter_empty_conv ref_replace_def set_map ball_simps bex_simps image_iff
        Bex_def Ball_def) blast
  also have "\<dots> \<longleftrightarrow> (\<exists>c \<in> set x. survives c)"
    by (simp only: survives_step)
  finally show ?thesis .
qed

text \<open>The raw name \<^verbatim>\<open>a!!b\<close> holds a letter, and its identifier is not empty.\<close>

theorem normalize_nonempty_iff_witness:
  "(\<exists>c \<in> set ''a!!b''. survives c) \<and> normalize ''a!!b'' \<noteq> []"
proof -
  have h: "\<exists>c \<in> set ''a!!b''. survives c" by code_simp
  show ?thesis using h normalize_nonempty_iff [of "''a!!b''"] by simp
qed

text \<open>C3, as stated, fails: the raw name \<^verbatim>\<open>!!!\<close> is mapped to the empty string.\<close>

theorem normalize_empty_counterexample: "normalize ''!!!'' = []"
  by code_simp

text \<open>
  C8. On the sample table of the docstring and the pattern \<^verbatim>\<open>en\w+\<close> the address found is
  \<^verbatim>\<open>192.168.1.86\<close>: the \<^verbatim>\<open>lo\<close> line and the two \<^verbatim>\<open>ipv6\<close> lines are passed over and the
  prefix length is dropped.
\<close>

theorem sample_table_address:
  "parse_virsh_domifaddr sample_table default_interface_pattern = Inr (Some ''192.168.1.86'')"
  by code_simp

section \<open>Patterns, substrings and tokens\<close>

lemma nullable_iff: "nullable r \<longleftrightarrow> [] \<in> lang r"
  by (induction r) (auto intro: star.intros)

lemma star_Cons:
  "c # w \<in> star A \<longleftrightarrow> (\<exists>u v. w = u @ v \<and> c # u \<in> A \<and> v \<in> star A)"
proof
  assume "c # w \<in> star A"
  then show "\<exists>u v. w = u @ v \<and> c # u \<in> A \<and> v \<in> star A"
  proof (induction "c # w" rule: star.induct)
    case (star_more u v)
    then show ?case by (cases u) auto
  qed
next
  assume "\<exists>u v. w = u @ v \<and> c # u \<in> A \<and> v \<in> star A"
  then obtain u v where "w = u @ v" "c # u \<in> A" "v \<in> star A" by blast
  then show "c # w \<in> star A" using star_more[of "c # u" A v] by simp
qed

lemma lang_after: "w \<in> lang (after c r) \<longleftrightarrow> c # w \<in> lang r"
proof (induction r arbitrary: w)
  case (Seq r s)
  show ?case
  proof (cases "nullable r")
    case True
    then show ?thesis using Seq by (auto simp: nullable_iff Cons_eq_append_conv)
  next
    case False
    then show ?thesis using Seq by (auto simp: nullable_iff Cons_eq_append_conv)
  qed
next
  case (Star r)
  then show ?case by (auto simp: star_Cons)
next
  case (Plus r)
  then show ?case by (auto simp: star_Cons Cons_eq_append_conv)
qed auto

lemma re_match_iff: "re_match r s \<longleftrightarrow> (\<exists>u v. s = u @ v \<and> u \<in> lang r)"
proof (induction s arbitrary: r)
  case Nil
  then show ?case by (simp add: nullable_iff)
next
  case (Cons c cs)
  show ?case
  proof
    assume "re_match r (c # cs)"
    then consider "nullable r" | "re_match (after c r) cs" by auto
    then show "\<exists>u v. c # cs = u @ v \<and> u \<in> lang r"
    proof cases
      case 1
      then show ?thesis by (auto simp: nullable_iff)
    next
      case 2
      then obtain u v where "cs = u @ v" "u \<in> lang (after c r)" using Cons.IH by blast
      then have "c # cs = (c # u) @ v \<and> c # u \<in> lang r" by (simp add: lang_after)
      then show ?thesis by blast
    qed
  next
    assume "\<exists>u v. c # cs = u @ v \<and> u \<in> lang r"
    then obtain u v where uv: "c # cs = u @ v" "u \<in> lang r" by blast
    show "re_match r (c # cs)"
    proof (cases u)
      case Nil
      then have "nullable r" using uv by (simp add: nullable_iff)
      then show ?thesis by simp
    next
      case (Cons a u')
      then have "cs = u' @ v" "u' \<in> lang (after c r)" using uv by (auto simp: lang_after)
      then have "re_match (after c r) cs" using Cons.IH by blast
      then show ?thesis by simp
    qed
  qed
qed

lemma startswith_iff: "startswith p s \<longleftrightarrow> (\<exists>v. s = p @ v)"
  by (induction p s rule: startswith.induct) auto

lemma contains_iff: "contains t s \<longleftrightarrow> (\<exists>u v. s = u @ t @ v)"
proof (induction s)
  case Nil
  then show ?case by auto
next
  case (Cons c cs)
  show ?case
  proof
    assume "contains t (c # cs)"
    then consider "startswith t (c # cs)" | "contains t cs" by auto
    then show "\<exists>u v. c # cs = u @ t @ v"
    proof cases
      case 1
      then obtain v where "c # cs = t @ v" by (auto simp: startswith_iff)
      then have "c # cs = [] @ t @ v" by simp
      then show ?thesis by blast
    next
      case 2
      then obtain u v where "cs = u @ t @ v" using Cons.IH by blast
      then have "c # cs = (c # u) @ t @ v" by simp
      then show ?thesis by blast
    qed
  next
    assume "\<exists>u v. c # cs = u @ t @ v"
    then obtain u v where uv: "c # cs = u @ t @ v" by blast
    show "contains t (c # cs)"
    proof (cases u)
      case Nil
      then have "startswith t (c # cs)" using uv by (simp add: startswith_iff)
      then show ?thesis by simp
    next
      case (Cons a u')
      then have "cs = u' @ t @ v" using uv by simp
      then have "contains t cs" using Cons.IH by blast
      then show ?thesis by simp
    qed
  qed
qed

lemma split_from_token:
  "t \<in> set (split_from cur s) \<Longrightarrow> \<exists>u v. rev cur @ s = u @ t @ v"
proof (induction s arbitrary: cur)
  case Nil
  then have "t = rev cur" by (auto split: if_splits)
  then have "rev cur @ [] = [] @ t @ []" by simp
  then show ?case by blast
next
  case (Cons c cs)
  show ?case
  proof (cases "is_space c")
    case False
    then have "t \<in> set (split_from (c # cur) cs)" using Cons.prems by simp
    then obtain u v where "rev (c # cur) @ cs = u @ t @ v" using Cons.IH by blast
    then have "rev cur @ c # cs = u @ t @ v" by simp
    then show ?thesis by blast
  next
    case True
    then consider "cur \<noteq> []" "t = rev cur" | "t \<in> set (split_from [] cs)"
      using Cons.prems by (auto split: if_splits)
    then show ?thesis
    proof cases
      case 1
      then have "rev cur @ c # cs = [] @ t @ (c # cs)" by simp
      then show ?thesis by blast
    next
      case 2
      then obtain u v where "rev [] @ cs = u @ t @ v" using Cons.IH by blast
      then have "rev cur @ c # cs = (rev cur @ c # u) @ t @ v" by simp
      then show ?thesis by blast
    qed
  qed
qed

lemma split_token_contained: "t \<in> set (split s) \<Longrightarrow> contains t s"
  using split_from_token[of t "[]" s] by (simp add: split_def contains_iff)

lemma split_from_nonempty:
  "cur \<noteq> [] \<or> (\<exists>c \<in> set s. \<not> is_space c) \<Longrightarrow> split_from cur s \<noteq> []"
  by (induction s arbitrary: cur) auto

lemma contains_ipv4_split: "contains ''ipv4'' line \<Longrightarrow> split line \<noteq> []"
proof -
  assume "contains ''ipv4'' line"
  then obtain u v where "line = u @ ''ipv4'' @ v" by (auto simp: contains_iff)
  then have "CHR ''i'' \<in> set line" by simp
  moreover have "\<not> is_space CHR ''i''" by (simp add: is_space_def code_def)
  ultimately show ?thesis unfolding split_def by (intro split_from_nonempty) blast
qed

lemma parse_never_raises: "\<exists>r. parse_virsh_domifaddr lines pat = Inr r"
  by (induction lines) (auto simp: Let_def dest: contains_ipv4_split split: list.splits)

section \<open>The address selection\<close>

text \<open>
  C10. The address selection is total and never fails on token indexing: a line that
  contains \<^verbatim>\<open>ipv4\<close> has at least one token, so the first and the last token exist when
  they are read, and for every list of lines and every pattern the function returns an
  address or \<open>None\<close>, never an error.
\<close>

theorem parse_virsh_domifaddr_total:
  "(contains ''ipv4'' line \<longrightarrow> split line \<noteq> [])
   \<and> (\<exists>r. parse_virsh_domifaddr lines interface_pattern = Inr r)"
  using contains_ipv4_split parse_never_raises by blast

text \<open>The line of the sample report contains \<^verbatim>\<open>ipv4\<close> and has tokens.\<close>

theorem parse_virsh_domifaddr_total_witness:
  "contains ''ipv4'' sample_report \<and> split sample_report \<noteq> []
   \<and> (\<exists>r. parse_virsh_domifaddr [sample_report] default_interface_pattern = Inr r)"
proof -
  have h: "contains ''ipv4'' sample_report" by code_simp
  show ?thesis
    using h parse_virsh_domifaddr_total [of sample_report "[sample_report]" default_interface_pattern]
    by simp
qed

lemma reference_when_four_columns:
  "\<forall>l \<in> set lines. contains ''ipv4'' l \<longrightarrow> four_columns l \<Longrightarrow>
   parse_virsh_domifaddr lines pat = Inr (resolve_address_reference lines pat)"
proof (induction lines)
  case Nil
  then show ?case by simp
next
  case (Cons l ls)
  then have ih: "parse_virsh_domifaddr ls pat = Inr (resolve_address_reference ls pat)" by simp
  show ?case
  proof (cases "contains ''ipv4'' l")
    case True
    then have "four_columns l" using Cons.prems by simp
    then obtain name mac address where "split l = [name, mac, ''ipv4'', address]"
      by (auto simp: four_columns_def split: list.splits)
    then show ?thesis using True ih by (simp add: Let_def)
  next
    case False
    have "resolve_address_reference (l # ls) pat = resolve_address_reference ls pat"
    proof (cases "split l")
      case Nil
      then show ?thesis by simp
    next
      case (Cons a as)
      { fix name mac protocol address rest
        assume sp: "split l = name # mac # protocol # address # rest"
        have "protocol \<noteq> ''ipv4''"
        proof
          assume "protocol = ''ipv4''"
          then have "''ipv4'' \<in> set (split l)" using sp by simp
          then show False using False split_token_contained by blast
        qed }
      then show ?thesis by (auto split: list.splits)
    qed
    then show ?thesis using False ih by (simp add: Let_def)
  qed
qed

text \<open>
  On reports in which every line that contains \<^verbatim>\<open>ipv4\<close> has exactly the four columns,
  with \<^verbatim>\<open>ipv4\<close> as its protocol field, the code follows the selection rule of the
  specification (see \<open>reference_when_four_columns\<close>). It does not on every report.
\<close>

text \<open>
  C1 fails on the code. The guard \<^verbatim>\<open>"ipv4" in line\<close> looks at the whole line, not at the
  protocol field: on an \<^verbatim>\<open>ipv6\<close> line of an interface named \<^verbatim>\<open>enipv4\<close> the code returns
  the IPv6 address, while no line has the protocol field \<^verbatim>\<open>ipv4\<close> and the selection rule
  gives no address.
\<close>

theorem ipv6_address_returned:
  "parse_virsh_domifaddr ipv6_only_report default_interface_pattern
     = Inr (Some ''fe80::5054:ff:fef0:f9df'')
   \<and> resolve_address_reference ipv6_only_report default_interface_pattern = None"
  by code_simp

section \<open>The run\<close>

text \<open>
  C2, as the code has it. The listing is split into lines and exactly the lines of which
  the pattern matches a prefix are kept, in their order. Empty lines are not discarded as
  such: an empty line is kept whenever the pattern matches the empty string.
\<close>

theorem list_vms_exact:
  "list_vms name_pattern out
     = filter (\<lambda>vm. \<exists>u v. vm = u @ v \<and> u \<in> lang name_pattern) (splitlines out)
   \<and> ([] \<in> set (list_vms name_pattern out)
        \<longleftrightarrow> [] \<in> set (splitlines out) \<and> [] \<in> lang name_pattern)"
proof -
  have "re_match name_pattern = (\<lambda>vm. \<exists>u v. vm = u @ v \<and> u \<in> lang name_pattern)"
    by (rule ext) (rule re_match_iff)
  then show ?thesis
    by (auto simp: list_vms_def)
qed

text \<open>
  C2, as stated, fails: with the default pattern the blank line that ends the listing is
  returned as a VM name.
\<close>

theorem blank_line_kept_counterexample:
  "list_vms default_name_pattern listing_with_blank_line = [''web'', ''db'', []]"
  by code_simp

text \<open>
  C4 fails on the code. When the host lists no VM the run returns with the session still
  open, and when an address query cannot be executed the run raises with the session
  still open: \<^verbatim>\<open>client.close()\<close> is reached only at the end of line 148.
\<close>

theorem session_left_open:
  "parse sample_config host_without_vms initial
     = (Returned, \<lparr>session_open = True, inventory = []\<rparr>)
   \<and> parse sample_config host_failing_query initial
     = (Raised (AddressQueryError ''web''), \<lparr>session_open = True, inventory = []\<rparr>)"
  by code_simp

lemma collect_ips_raises:
  "\<exists>vm \<in> set vms. virsh_domifaddr rem vm = ExecRaises \<Longrightarrow>
   \<exists>vm \<in> set vms. virsh_domifaddr rem vm = ExecRaises
      \<and> collect_ips rem pat vms acc = Inl (AddressQueryError vm)"
proof (induction vms arbitrary: acc)
  case Nil
  then show ?case by simp
next
  case (Cons v vs)
  show ?case
  proof (cases "virsh_domifaddr rem v = ExecRaises")
    case True
    then show ?thesis by simp
  next
    case False
    then have "\<exists>vm \<in> set vs. virsh_domifaddr rem vm = ExecRaises" using Cons.prems by auto
    then have ih: "\<And>a. \<exists>vm \<in> set vs. virsh_domifaddr rem vm = ExecRaises
        \<and> collect_ips rem pat vs a = Inl (AddressQueryError vm)"
      using Cons.IH by blast
    show ?thesis
    proof (cases "virsh_domifaddr rem v")
      case ExecRaises
      then show ?thesis using False by simp
    next
      case ReadRaises
      then show ?thesis using ih[of acc] by auto
    next
      case (Stdout out)
      show ?thesis
      proof (cases "parse_virsh_domifaddr (splitlines out) pat")
        case (Inl e)
        then show ?thesis using Stdout ih[of acc] by auto
      next
        case (Inr r)
        show ?thesis
        proof (cases r)
          case None
          then show ?thesis using Stdout Inr ih[of acc] by auto
        next
          case (Some ip)
          then show ?thesis using Stdout Inr ih[of acc] ih[of "dict_set acc v ip"] by auto
        qed
      qed
    qed
  qed
qed

lemma collect_ips_returns:
  "\<forall>vm \<in> set vms. virsh_domifaddr rem vm \<noteq> ExecRaises \<Longrightarrow>
   \<exists>ips. collect_ips rem pat vms acc = Inr ips"
  by (induction vms arbitrary: acc) (auto split: exec_result.splits sum.splits option.splits)

lemma parse_reaching:
  "reaches_host cfg rem \<Longrightarrow>
   parse cfg rem st =
     (let st1 = st\<lparr>session_open := True\<rparr> in
      case virsh_list rem of
        ExecRaises \<Rightarrow> (Raised ListingError, st1)
      | ReadRaises \<Rightarrow> (Raised ListingError, st1)
      | Stdout out \<Rightarrow>
          let vms = list_vms (name_pattern_of cfg) out in
          if vms = [] then (Returned, st1)
          else
            (case collect_ips rem (interface_pattern_of cfg) vms [] of
               Inl e \<Rightarrow> (Raised e, st1)
             | Inr vms_ips \<Rightarrow>
                 (Returned,
                  st1\<lparr>inventory :=
                         inventory st1
                         @ (if vms_ips \<noteq> [] then [AddGroup ''unraid''] else [])
                         @ add_hosts (ansible_user cfg) vms_ips,
                       session_open := False\<rparr>)))"
  by (simp add: parse_def reaches_host_def Let_def)

text \<open>
  C5. Once the host is reached: a listing command that cannot be executed aborts the run;
  an address query that cannot be executed aborts the run with an error naming that VM;
  and when every command is executed the run returns, whatever the reports contain.
\<close>

theorem command_failures:
  assumes "reaches_host cfg rem"
  shows "(virsh_list rem = ExecRaises \<longrightarrow> fst (parse cfg rem st) = Raised ListingError)
   \<and> (\<forall>out. virsh_list rem = Stdout out
          \<and> (\<exists>vm \<in> set (list_vms (name_pattern_of cfg) out). virsh_domifaddr rem vm = ExecRaises)
        \<longrightarrow> (\<exists>vm \<in> set (list_vms (name_pattern_of cfg) out).
               virsh_domifaddr rem vm = ExecRaises
               \<and> fst (parse cfg rem st) = Raised (AddressQueryError vm)))
   \<and> (\<forall>out. virsh_list rem = Stdout out
          \<and> (\<forall>vm \<in> set (list_vms (name_pattern_of cfg) out). virsh_domifaddr rem vm \<noteq> ExecRaises)
        \<longrightarrow> fst (parse cfg rem st) = Returned)"
proof (intro conjI allI impI)
  assume "virsh_list rem = ExecRaises"
  then show "fst (parse cfg rem st) = Raised ListingError"
    by (simp add: parse_reaching[OF assms])
next
  fix out
  let ?vms = "list_vms (name_pattern_of cfg) out"
  assume a: "virsh_list rem = Stdout out \<and> (\<exists>vm \<in> set ?vms. virsh_domifaddr rem vm = ExecRaises)"
  then obtain vm where vm: "vm \<in> set ?vms" "virsh_domifaddr rem vm = ExecRaises"
    "collect_ips rem (interface_pattern_of cfg) ?vms [] = Inl (AddressQueryError vm)"
    using collect_ips_raises[of ?vms rem "interface_pattern_of cfg" "[]"] by blast
  then have "?vms \<noteq> []" by auto
  then have "fst (parse cfg rem st) = Raised (AddressQueryError vm)"
    using a vm(3) by (simp add: parse_reaching[OF assms] Let_def)
  then show "\<exists>vm \<in> set ?vms. virsh_domifaddr rem vm = ExecRaises
     \<and> fst (parse cfg rem st) = Raised (AddressQueryError vm)"
    using vm by blast
next
  fix out
  let ?vms = "list_vms (name_pattern_of cfg) out"
  assume a: "virsh_list rem = Stdout out \<and> (\<forall>vm \<in> set ?vms. virsh_domifaddr rem vm \<noteq> ExecRaises)"
  then obtain ips where "collect_ips rem (interface_pattern_of cfg) ?vms [] = Inr ips"
    using collect_ips_returns[of ?vms rem "interface_pattern_of cfg" "[]"] by blast
  then show "fst (parse cfg rem st) = Returned"
    using a by (simp add: parse_reaching[OF assms] Let_def)
qed

text \<open>Three hosts: the listing fails, the query fails, the report cannot be parsed.\<close>

theorem command_failures_witness:
  "reaches_host sample_config host_failing_list
   \<and> fst (parse sample_config host_failing_list initial) = Raised ListingError
   \<and> (\<exists>vm \<in> set (list_vms (name_pattern_of sample_config) ''web'').
         virsh_domifaddr host_failing_query vm = ExecRaises
         \<and> fst (parse sample_config host_failing_query initial) = Raised (AddressQueryError vm))
   \<and> fst (parse sample_config host_unparsable initial) = Returned"
proof -
  have r1: "reaches_host sample_config host_failing_list" by code_simp
  have r2: "reaches_host sample_config host_failing_query" by code_simp
  have r3: "reaches_host sample_config host_unparsable" by code_simp
  have l1: "virsh_list host_failing_list = ExecRaises" by (simp add: host_failing_list_def)
  have l2: "virsh_list host_failing_query = Stdout ''web''
      \<and> (\<exists>vm \<in> set (list_vms (name_pattern_of sample_config) ''web'').
            virsh_domifaddr host_failing_query vm = ExecRaises)"
    by code_simp
  have l3: "virsh_list host_unparsable = Stdout ''web''
      \<and> (\<forall>vm \<in> set (list_vms (name_pattern_of sample_config) ''web'').
            virsh_domifaddr host_unparsable vm \<noteq> ExecRaises)"
    by (simp add: host_unparsable_def)
  show ?thesis
    using r1 l1 l2 l3 command_failures [OF r1, of initial] command_failures [OF r2, of initial]
      command_failures [OF r3, of initial]
    by blast
qed

text \<open>
  C6 fails on the code. The report of the VM \<^verbatim>\<open>web\<close> holds no line whose protocol field is
  \<^verbatim>\<open>ipv4\<close>, so no line matches the selection rule; yet the run does not pass the VM over:
  it adds the host \<^verbatim>\<open>web\<close> to the inventory, with the IPv6 address of the \<^verbatim>\<open>enipv4\<close> line
  as its \<^verbatim>\<open>ansible_host\<close>.
\<close>

theorem ipv6_host_added:
  "resolve_address_reference (splitlines ipv6_only_line) default_interface_pattern = None
   \<and> parse sample_config host_ipv6_only initial
     = (Returned,
        \<lparr>session_open = False,
         inventory =
           [AddGroup ''unraid'', AddHost ''web'' ''unraid'',
            SetVariable ''web'' ''ansible_host'' ''fe80::5054:ff:fef0:f9df'']\<rparr>)"
  by code_simp

end
